theory Spec2Isabelle
  imports Main "HOL-Library.Finite_Map" "HOL-Library.Char_ord" "HOL-Library.List_Lexorder"
begin

section \<open>Values held by Go's \<open>any\<close>\<close>

text \<open>
  \<open>buildOutput\<close> stores every extracted value in an \<open>any\<close> and tests its dynamic type
  with \<open>value.(map[string]any)\<close>.  The dynamic types that occur are those produced by
  \<open>json.Unmarshal\<close> into an \<open>any\<close> (nil, bool, float64, string, \<open>[]any\<close>,
  \<open>map[string]any\<close>), \<open>map[string]string\<close> (\<open>routeParams\<close>, \<open>c.Queries()\<close>) and
  \<open>map[string][]string\<close> (\<open>c.GetReqHeaders()\<close>).  Floating point numbers are kept opaque.
  A Go string is a byte sequence, here a \<open>string\<close>.
\<close>

typedecl float64

datatype gvalue =
    Nil
  | Bool bool
  | Number float64
  | String string
  | Array "gvalue list"
  | Object "(string, gvalue) fmap"
  | StringMap "(string, string) fmap"
  | StringListMap "(string, string list) fmap"

text \<open>The type assertion \<open>obj, ok := value.(map[string]any)\<close>: \<open>None\<close> is \<open>ok = false\<close>.\<close>

fun asObject :: "gvalue \<Rightarrow> (string, gvalue) fmap option" where
  "asObject (Object obj) = Some obj"
| "asObject _ = None"

text \<open>\<open>len(m)\<close> of a Go map.\<close>

definition len :: "('k, 'v) fmap \<Rightarrow> nat" where
  "len m = fcard (fmdom m)"

section \<open>Configuration\<close>

type_synonym Source = string

definition SourceBody :: Source where "SourceBody = ''body''"
definition SourceHeaders :: Source where "SourceHeaders = ''headers''"
definition SourceQuery :: Source where "SourceQuery = ''query''"
definition SourceParams :: Source where "SourceParams = ''params''"
definition SourceMethod :: Source where "SourceMethod = ''method''"
definition SourcePath :: Source where "SourcePath = ''path''"
definition SourceIP :: Source where "SourceIP = ''ip''"

record FieldMapping =
  From :: Source
  To :: string
  Root :: bool

section \<open>Errors\<close>

text \<open>One constructor for each \<open>fmt.Errorf\<close> of the mapping engine, with the values it formats.\<close>

datatype error =
    UnsupportedSource Source
      \<comment> \<open>\<open>unsupported source %q\<close>\<close>
  | RootKeyCollision string
      \<comment> \<open>\<open>root key collision on %q\<close>\<close>
  | MappingFailed Source string error
      \<comment> \<open>\<open>mapping %q -> %q: %w\<close>\<close>
  | ObjectRootAfterNonObjectRoot Source
      \<comment> \<open>\<open>mapping %q cannot merge object root when non-object root already set\<close>\<close>
  | MappingAsRootFailed Source error
      \<comment> \<open>\<open>mapping %q as root: %w\<close>\<close>
  | NonObjectRootAfterObjectOutput Source
      \<comment> \<open>\<open>mapping %q cannot set non-object root when object output already exists\<close>\<close>
  | NonObjectRootTwice Source
      \<comment> \<open>\<open>mapping %q cannot set non-object root more than once\<close>\<close>
  | KeyedAfterNonObjectRoot Source
      \<comment> \<open>\<open>mapping %q cannot add keyed fields when non-object root is already set\<close>\<close>

section \<open>The request\<close>

text \<open>
  \<open>fiber.Ctx\<close> belongs to the Fiber v3 library.  The record holds what the methods called by
  \<open>extractValue\<close> and \<open>routeParams\<close> return for one request, with the result types of
  that library: \<open>Body() []byte\<close>, \<open>GetReqHeaders() map[string][]string\<close>,
  \<open>Route() *Route\<close> (only \<open>Params []string\<close> is read; \<open>None\<close> is nil),
  \<open>Params(key) string\<close>, \<open>Method()\<close>, \<open>Path()\<close>, \<open>IP() string\<close>.
  \<open>QueryArgs\<close> are the query arguments of the request in the order received.
\<close>

record Ctx =
  Body :: string
  GetReqHeaders :: "(string, string list) fmap"
  QueryArgs :: "(string \<times> string) list"
  Route :: "string list option"
  Params :: "string \<Rightarrow> string"
  Method :: string
  Path :: string
  IP :: string

text \<open>
  \<open>Queries() map[string]string\<close> of the library: it allocates a map and assigns
  \<open>m[key] = value\<close> for every query argument in turn.
\<close>

definition Queries :: "'a Ctx_scheme \<Rightarrow> (string, string) fmap" where
  "Queries c = fold (\<lambda>(key, val) m. fmupd key val m) (QueryArgs c) fmempty"

section \<open>The source extractor\<close>

text \<open>\<open>json.Unmarshal(raw, &parsed)\<close> is a parameter: \<open>None\<close> is a decoding error.\<close>

type_synonym unmarshal = "string \<Rightarrow> gvalue option"

definition parseBody :: "unmarshal \<Rightarrow> string \<Rightarrow> error + gvalue" where
  "parseBody json_Unmarshal raw =
     (if length raw = 0 then Inr (Object fmempty)
      else (case json_Unmarshal raw of
              None \<Rightarrow> Inr (String raw)
            | Some parsed \<Rightarrow> Inr parsed))"

definition routeParams :: "'a Ctx_scheme \<Rightarrow> (string, string) fmap" where
  "routeParams c =
     (case Route c of
        None \<Rightarrow> fmempty
      | Some keys \<Rightarrow> fold (\<lambda>key params. fmupd key (Params c key) params) keys fmempty)"

definition extractValue :: "unmarshal \<Rightarrow> 'a Ctx_scheme \<Rightarrow> Source \<Rightarrow> error + gvalue" where
  "extractValue json_Unmarshal c source =
     (if source = SourceBody then parseBody json_Unmarshal (Body c)
      else if source = SourceHeaders then Inr (StringListMap (GetReqHeaders c))
      else if source = SourceQuery then Inr (StringMap (Queries c))
      else if source = SourceParams then Inr (StringMap (routeParams c))
      else if source = SourceMethod then Inr (String (Method c))
      else if source = SourcePath then Inr (String (Path c))
      else if source = SourceIP then Inr (String (IP c))
      else Inl (UnsupportedSource source))"

section \<open>The document assembler\<close>

text \<open>
  \<open>for k, v := range obj\<close> visits every entry of the map once, in an order Go leaves
  open.  The order is a parameter: a function that lists the entries of a map.
\<close>

type_synonym range_order = "(string, gvalue) fmap \<Rightarrow> (string \<times> gvalue) list"

definition range_ok :: "range_order \<Rightarrow> bool" where
  "range_ok rng \<longleftrightarrow> (\<forall>m. distinct (map fst (rng m)) \<and> fmap_of_list (rng m) = m)"

text \<open>The body of the loop of \<open>mergeRootObject\<close>, over the entries still to visit.\<close>

fun mergeRootObject_range ::
  "(string, gvalue) fmap \<Rightarrow> (string \<times> gvalue) list \<Rightarrow> error + (string, gvalue) fmap" where
  "mergeRootObject_range dst [] = Inr dst"
| "mergeRootObject_range dst ((k, v) # kvs) =
     (case fmlookup dst k of
        Some _ \<Rightarrow> Inl (RootKeyCollision k)
      | None \<Rightarrow> mergeRootObject_range (fmupd k v dst) kvs)"

text \<open>
  \<open>mergeRootObject\<close> updates \<open>dst\<close> in place; the model returns the updated map.  When it
  fails half way the caller returns at once and drops \<open>dst\<close>, so no result is kept then.
\<close>

definition mergeRootObject ::
  "range_order \<Rightarrow> (string, gvalue) fmap \<Rightarrow> (string, gvalue) fmap \<Rightarrow> error + (string, gvalue) fmap" where
  "mergeRootObject rng dst obj = mergeRootObject_range dst (rng obj)"

text \<open>The local variables of \<open>buildOutput\<close>; \<open>output'\<close> is its \<open>output\<close>.\<close>

record build_state =
  output' :: "(string, gvalue) fmap"
  rootValue :: gvalue
  hasRootValue :: bool

definition init_state :: build_state where
  "init_state = \<lparr>output' = fmempty, rootValue = Nil, hasRootValue = False\<rparr>"

text \<open>One iteration of \<open>for _, m := range mappings\<close>.\<close>

definition buildOutput_step ::
  "range_order \<Rightarrow> unmarshal \<Rightarrow> 'a Ctx_scheme \<Rightarrow> build_state \<Rightarrow> FieldMapping \<Rightarrow> error + build_state" where
  "buildOutput_step rng json_Unmarshal c st m =
     (case extractValue json_Unmarshal c (From m) of
        Inl err \<Rightarrow> Inl (MappingFailed (From m) (To m) err)
      | Inr val \<Rightarrow>
          if Root m then
            (case asObject val of
               Some obj \<Rightarrow>
                 if hasRootValue st then Inl (ObjectRootAfterNonObjectRoot (From m))
                 else (case mergeRootObject rng (output' st) obj of
                         Inl err \<Rightarrow> Inl (MappingAsRootFailed (From m) err)
                       | Inr dst \<Rightarrow> Inr (st\<lparr>output' := dst\<rparr>))
             | None \<Rightarrow>
                 if len (output' st) > 0 then Inl (NonObjectRootAfterObjectOutput (From m))
                 else if hasRootValue st then Inl (NonObjectRootTwice (From m))
                 else Inr (st\<lparr>rootValue := val, hasRootValue := True\<rparr>))
          else if hasRootValue st then Inl (KeyedAfterNonObjectRoot (From m))
          else Inr (st\<lparr>output' := fmupd (To m) val (output' st)\<rparr>))"

fun buildOutput_loop ::
  "range_order \<Rightarrow> unmarshal \<Rightarrow> 'a Ctx_scheme \<Rightarrow> build_state \<Rightarrow> FieldMapping list \<Rightarrow> error + build_state" where
  "buildOutput_loop rng json_Unmarshal c st [] = Inr st"
| "buildOutput_loop rng json_Unmarshal c st (m # mappings) =
     (case buildOutput_step rng json_Unmarshal c st m of
        Inl err \<Rightarrow> Inl err
      | Inr st' \<Rightarrow> buildOutput_loop rng json_Unmarshal c st' mappings)"

definition buildOutput ::
  "range_order \<Rightarrow> unmarshal \<Rightarrow> 'a Ctx_scheme \<Rightarrow> FieldMapping list \<Rightarrow> error + gvalue" where
  "buildOutput rng json_Unmarshal c mappings =
     (case buildOutput_loop rng json_Unmarshal c init_state mappings of
        Inl err \<Rightarrow> Inl err
      | Inr st \<Rightarrow> if hasRootValue st then Inr (rootValue st) else Inr (Object (output' st)))"

section \<open>Vocabulary of the properties\<close>

text \<open>
  The invariant of the loop of \<open>buildOutput\<close>: once a non-object root is stored, \<open>output\<close> is
  empty and the stored root is not a \<open>map[string]any\<close>.
\<close>

definition root_inv :: "build_state \<Rightarrow> bool" where
  "root_inv st \<longleftrightarrow>
     (hasRootValue st \<longrightarrow> output' st = fmempty \<and> asObject (rootValue st) = None)"

text \<open>
  The error kinds of the specification.  A mixed-root error is any of the four messages about a
  non-object root; a root-collision error is the failure of \<open>mergeRootObject\<close> as wrapped
  by \<open>buildOutput\<close>.
\<close>

fun is_mixed_root :: "error \<Rightarrow> bool" where
  "is_mixed_root (ObjectRootAfterNonObjectRoot _) = True"
| "is_mixed_root (NonObjectRootAfterObjectOutput _) = True"
| "is_mixed_root (NonObjectRootTwice _) = True"
| "is_mixed_root (KeyedAfterNonObjectRoot _) = True"
| "is_mixed_root _ = False"

fun is_root_collision :: "error \<Rightarrow> bool" where
  "is_root_collision (MappingAsRootFailed _ (RootKeyCollision _)) = True"
| "is_root_collision _ = False"

definition fails_with :: "(error \<Rightarrow> bool) \<Rightarrow> error + 'a \<Rightarrow> bool" where
  "fails_with P r = (case r of Inl err \<Rightarrow> P err | Inr _ \<Rightarrow> False)"

definition supported_sources :: "Source list" where
  "supported_sources =
     [SourceBody, SourceHeaders, SourceQuery, SourceParams, SourceMethod, SourcePath, SourceIP]"

section \<open>Sample inputs\<close>

text \<open>One admissible order of \<open>range\<close>: ascending keys.\<close>

definition key_order :: range_order where
  "key_order = sorted_list_of_fmap"

text \<open>The request body \<^verbatim>\<open>{"id":"1"}\<close>.\<close>

definition body_id :: string where
  "body_id = [CHR ''{'', CHR 0x22, CHR ''i'', CHR ''d'', CHR 0x22, CHR '':'',
              CHR 0x22, CHR ''1'', CHR 0x22, CHR ''}'']"

text \<open>\<open>json.Unmarshal\<close> on the bodies used below; \<open>not-json\<close> and the like fail to decode.\<close>

definition sample_Unmarshal :: unmarshal where
  "sample_Unmarshal raw =
     (if raw = body_id then Some (Object (fmupd ''id'' (String ''1'') fmempty))
      else if raw = ''{}'' then Some (Object fmempty)
      else None)"

text \<open>
  \<^verbatim>\<open>POST /hook/3?id=2&id=4\<close> on the route \<^verbatim>\<open>/hook/:id\<close> with body \<^verbatim>\<open>{"id":"1"}\<close>.
\<close>

definition sample_ctx :: Ctx where
  "sample_ctx =
     \<lparr>Body = body_id,
      GetReqHeaders = fmupd ''Host'' [''localhost''] fmempty,
      QueryArgs = [(''id'', ''2''), (''id'', ''4'')],
      Route = Some [''id''],
      Params = (\<lambda>key. if key = ''id'' then ''3'' else []),
      Method = ''POST'',
      Path = ''/hook/3'',
      IP = ''127.0.0.1''\<rparr>"

definition root_rule :: "Source \<Rightarrow> FieldMapping" where
  "root_rule s = \<lparr>From = s, To = [], Root = True\<rparr>"

definition keyed_rule :: "Source \<Rightarrow> string \<Rightarrow> FieldMapping" where
  "keyed_rule s k = \<lparr>From = s, To = k, Root = False\<rparr>"

text \<open>
  \<^verbatim>\<open>POST /hook?q=x\<close> on the route \<^verbatim>\<open>/:name\<close> with body \<^verbatim>\<open>{"id":"1"}\<close>: the keys of
  the body, of the query and of the route parameters are pairwise different.
\<close>

definition disjoint_ctx :: Ctx where
  "disjoint_ctx =
     sample_ctx\<lparr>QueryArgs := [(''q'', ''x'')], Route := Some [''name''],
       Params := (\<lambda>key. if key = ''name'' then ''hook'' else []), Path := ''/hook''\<rparr>"

text \<open>\<^verbatim>\<open>POST /hook/3\<close> on the route \<^verbatim>\<open>/hook/:id\<close> with an empty body and no query.\<close>

definition empty_body_ctx :: Ctx where
  "empty_body_ctx = sample_ctx\<lparr>Body := [], QueryArgs := []\<rparr>"

section \<open>Finite maps\<close>

lemmas Source_defs =
  SourceBody_def SourceHeaders_def SourceQuery_def SourceParams_def
  SourceMethod_def SourcePath_def SourceIP_def

lemma fmdom_empty_iff: "fmdom m = {||} \<longleftrightarrow> m = fmempty"
proof
  assume "fmdom m = {||}"
  then have "fmlookup m k = None" for k by (metis fmdom_notD fempty_iff)
  then show "m = fmempty" by (intro fmap_ext) simp
qed simp

lemma len_pos_iff: "len m > 0 \<longleftrightarrow> m \<noteq> fmempty"
proof -
  have "(fcard (fmdom m) = 0) = (m = fmempty)"
    by (simp only: fcard_0_eq fmdom_empty_iff)
  then show ?thesis unfolding len_def by arith
qed

lemma key_order_ok: "range_ok key_order"
  unfolding range_ok_def key_order_def
proof (intro allI conjI)
  fix m :: "(string, gvalue) fmap"
  have "map fst (sorted_list_of_fmap m) = sorted_list_of_fset (fmdom m)"
    by (simp add: sorted_list_of_fmap_def comp_def)
  then show "distinct (map fst (sorted_list_of_fmap m))"
    by (simp add: sorted_list_of_fset.rep_eq)
  show "fmap_of_list (sorted_list_of_fmap m) = m"
    by (rule fmap_ext) (simp add: fmlookup_of_list)
qed

lemma fmlookup_of_list_None: "fmlookup (fmap_of_list kvs) k = None \<longleftrightarrow> k \<notin> fst ` set kvs"
  by (simp add: fmlookup_of_list map_of_eq_None_iff)

lemma fmupd_add_left:
  "fmlookup n k = None \<Longrightarrow> fmupd k v m ++\<^sub>f n = fmupd k v (m ++\<^sub>f n)"
  by (rule fmap_ext) (auto simp: fmlookup_dom_iff)

lemma merge_range_ok:
  "distinct (map fst kvs) \<Longrightarrow> fst ` set kvs \<inter> fmdom' dst = {}
   \<Longrightarrow> mergeRootObject_range dst kvs = Inr (dst ++\<^sub>f fmap_of_list kvs)"
proof (induction kvs arbitrary: dst)
  case Nil
  then show ?case by simp
next
  case (Cons kv kvs)
  obtain k v where kv: "kv = (k, v)" by (cases kv)
  from Cons.prems have a: "fmlookup dst k = None" and b: "k \<notin> fst ` set kvs"
    and c: "distinct (map fst kvs)"
    and d: "fst ` set kvs \<inter> fmdom' (fmupd k v dst) = {}"
    unfolding kv by (auto simp: fmlookup_dom'_iff)
  have e: "fmlookup (fmap_of_list kvs) k = None" using b by (simp add: fmlookup_of_list_None)
  show ?case unfolding kv using a Cons.IH[OF c d] e
    by (simp add: fmupd_add_left)
qed

lemma merge_range_collision:
  "distinct (map fst kvs) \<Longrightarrow> fst ` set kvs \<inter> fmdom' dst \<noteq> {}
   \<Longrightarrow> \<exists>k. k \<in> fst ` set kvs \<and> k \<in> fmdom' dst \<and> mergeRootObject_range dst kvs = Inl (RootKeyCollision k)"
proof (induction kvs arbitrary: dst)
  case Nil
  then show ?case by simp
next
  case (Cons kv kvs)
  obtain k v where kv: "kv = (k, v)" by (cases kv)
  show ?case
  proof (cases "fmlookup dst k")
    case (Some a)
    then show ?thesis unfolding kv by (auto simp: fmlookup_dom'_iff)
  next
    case None
    with Cons.prems have "fst ` set kvs \<inter> fmdom' (fmupd k v dst) \<noteq> {}"
      unfolding kv by (auto simp: fmlookup_dom'_iff)
    moreover from Cons.prems have dk: "distinct (map fst kvs)" "k \<notin> fst ` set kvs"
      unfolding kv by auto
    ultimately obtain k' where k': "k' \<in> fst ` set kvs" "k' \<in> fmdom' (fmupd k v dst)"
      "mergeRootObject_range (fmupd k v dst) kvs = Inl (RootKeyCollision k')"
      using Cons.IH by blast
    from k' dk have "k' \<noteq> k" by auto
    with k' have "k' \<in> fmdom' dst" by simp
    with k' None show ?thesis unfolding kv by auto
  qed
qed

lemma fmdom'_of_list: "fmdom' (fmap_of_list kvs) = fst ` set kvs"
proof -
  have "k \<in> fmdom' (fmap_of_list kvs) \<longleftrightarrow> k \<in> fst ` set kvs" for k
    using fmlookup_of_list_None[of kvs k] by (auto simp: fmlookup_dom'_iff)
  then show ?thesis by blast
qed

lemma range_ok_keys: "range_ok rng \<Longrightarrow> fst ` set (rng m) = fmdom' m"
  using fmdom'_of_list[of "rng m"] by (simp add: range_ok_def)

lemma mergeRootObject_ok:
  "range_ok rng \<Longrightarrow> fmdom' obj \<inter> fmdom' dst = {}
   \<Longrightarrow> mergeRootObject rng dst obj = Inr (dst ++\<^sub>f obj)"
  using merge_range_ok[of "rng obj" dst] range_ok_keys[of rng obj]
  by (simp add: mergeRootObject_def range_ok_def)

lemma mergeRootObject_collision:
  "range_ok rng \<Longrightarrow> fmdom' obj \<inter> fmdom' dst \<noteq> {}
   \<Longrightarrow> \<exists>k. k \<in> fmdom' obj \<and> k \<in> fmdom' dst \<and>
           mergeRootObject rng dst obj = Inl (RootKeyCollision k)"
  using merge_range_collision[of "rng obj" dst] range_ok_keys[of rng obj]
  by (simp add: mergeRootObject_def range_ok_def)

lemma buildOutput_loop_append:
  "buildOutput_loop rng u c st (xs @ ys) =
     (case buildOutput_loop rng u c st xs of
        Inl err \<Rightarrow> Inl err
      | Inr st' \<Rightarrow> buildOutput_loop rng u c st' ys)"
  by (induction xs arbitrary: st) (auto split: sum.splits)

lemma root_inv_init: "root_inv init_state"
  by (simp add: root_inv_def init_state_def)

lemma root_inv_step:
  "root_inv st \<Longrightarrow> buildOutput_step rng u c st m = Inr st' \<Longrightarrow> root_inv st'"
  by (auto simp: buildOutput_step_def root_inv_def len_pos_iff
           split: sum.splits option.splits if_splits)

lemma root_inv_loop:
  "root_inv st \<Longrightarrow> buildOutput_loop rng u c st ms = Inr st' \<Longrightarrow> root_inv st'"
proof (induction ms arbitrary: st)
  case Nil
  then show ?case by simp
next
  case (Cons m ms)
  then show ?case by (auto split: sum.splits dest: root_inv_step)
qed


lemma step_extract_failed:
  "extractValue u c (From m) = Inl err
   \<Longrightarrow> buildOutput_step rng u c st m = Inl (MappingFailed (From m) (To m) err)"
  by (simp add: buildOutput_step_def)

lemmas sample_defs =
  sample_ctx_def sample_Unmarshal_def body_id_def root_rule_def keyed_rule_def

section \<open>Body extraction\<close>

text \<open>
  Claim C5.  Body extraction is total: for every byte sequence \<open>parseBody\<close> returns a value and
  never an error.  The empty sequence gives the empty object, a sequence that
  \<open>json.Unmarshal\<close> decodes gives the decoded value, every other sequence gives the raw bytes
  as a string; \<open>extractValue\<close> on \<open>body\<close> is \<open>parseBody\<close> of the request body.
\<close>

theorem parseBody_total:
  "(\<exists>v. parseBody u raw = Inr v) \<and>
   (raw = [] \<longrightarrow> parseBody u raw = Inr (Object fmempty)) \<and>
   (\<forall>parsed. raw \<noteq> [] \<and> u raw = Some parsed \<longrightarrow> parseBody u raw = Inr parsed) \<and>
   (raw \<noteq> [] \<and> u raw = None \<longrightarrow> parseBody u raw = Inr (String raw)) \<and>
   extractValue u c SourceBody = parseBody u (Body c)"
  by (auto simp: parseBody_def extractValue_def split: option.splits)

theorem parseBody_total_witness:
  "parseBody sample_Unmarshal [] = Inr (Object fmempty) \<and>
   parseBody sample_Unmarshal body_id = Inr (Object (fmupd ''id'' (String ''1'') fmempty)) \<and>
   parseBody sample_Unmarshal ''not-json'' = Inr (String ''not-json'')"
  using parseBody_total[of sample_Unmarshal "[]" sample_ctx]
    parseBody_total[of sample_Unmarshal body_id sample_ctx]
    parseBody_total[of sample_Unmarshal "''not-json''" sample_ctx]
  by (simp add: sample_Unmarshal_def body_id_def)

section \<open>Failing extraction\<close>

text \<open>
  Claim C7.  \<open>buildOutput\<close> is fail-fast: when the rules before \<open>m\<close> have been processed
  without error and extracting the source of \<open>m\<close> fails, \<open>buildOutput\<close> returns the
  extraction error wrapped with the source and the destination of \<open>m\<close>, whatever rules
  follow \<open>m\<close>.
\<close>

theorem extraction_fail_fast:
  assumes "buildOutput_loop rng u c init_state pre = Inr st"
    and "extractValue u c (From m) = Inl err"
  shows "buildOutput rng u c (pre @ m # rest) = Inl (MappingFailed (From m) (To m) err)"
  using assms
  by (simp add: buildOutput_def buildOutput_loop_append step_extract_failed)

theorem extraction_fail_fast_witness:
  "buildOutput key_order sample_Unmarshal sample_ctx
     [keyed_rule SourceMethod ''method'', keyed_rule ''cookies'' ''c'', root_rule SourceBody]
   = Inl (MappingFailed ''cookies'' ''c'' (UnsupportedSource ''cookies''))"
  using extraction_fail_fast[of key_order sample_Unmarshal sample_ctx
      "[keyed_rule SourceMethod ''method'']"
      "\<lparr>output' = fmupd ''method'' (String ''POST'') fmempty, rootValue = Nil,
        hasRootValue = False\<rparr>"
      "keyed_rule ''cookies'' ''c''" "UnsupportedSource ''cookies''" "[root_rule SourceBody]"]
  by (simp add: sample_defs buildOutput_step_def extractValue_def init_state_def Source_defs)

lemmas eval_defs =
  sample_defs buildOutput_step_def extractValue_def parseBody_def init_state_def Source_defs
  len_pos_iff

section \<open>Mixed roots\<close>

text \<open>
  Claim C1.  At most one non-object root per request.  Let the rules before \<open>m\<close> have been
  processed without error, giving the state \<open>st\<close>, and let the source of \<open>m\<close> yield
  \<open>v\<close>.  If \<open>m\<close> is a root rule, \<open>v\<close> is not an object and either a non-object root is
  already set or \<open>output\<close> already has keys, \<open>buildOutput\<close> fails with a mixed-root error;
  so it does if \<open>m\<close> is a keyed rule and a non-object root is set, and if \<open>m\<close> is a root
  rule, \<open>v\<close> is an object and a non-object root is set.
\<close>

theorem mixed_root_errors:
  assumes "buildOutput_loop rng u c init_state pre = Inr st"
    and "extractValue u c (From m) = Inr v"
  shows
    "(Root m \<and> asObject v = None \<and> (hasRootValue st \<or> len (output' st) > 0)
        \<longrightarrow> fails_with is_mixed_root (buildOutput rng u c (pre @ m # rest))) \<and>
     (\<not> Root m \<and> hasRootValue st
        \<longrightarrow> fails_with is_mixed_root (buildOutput rng u c (pre @ m # rest))) \<and>
     (Root m \<and> asObject v \<noteq> None \<and> hasRootValue st
        \<longrightarrow> fails_with is_mixed_root (buildOutput rng u c (pre @ m # rest)))"
  using assms
  by (auto simp: buildOutput_def buildOutput_loop_append buildOutput_step_def fails_with_def)

theorem mixed_root_errors_witness:
  "fails_with is_mixed_root (buildOutput key_order sample_Unmarshal sample_ctx
      [root_rule SourceMethod, root_rule SourcePath]) \<and>
   fails_with is_mixed_root (buildOutput key_order sample_Unmarshal sample_ctx
      [keyed_rule SourceMethod ''m'', root_rule SourcePath]) \<and>
   fails_with is_mixed_root (buildOutput key_order sample_Unmarshal sample_ctx
      [root_rule SourceMethod, keyed_rule SourcePath ''p'']) \<and>
   fails_with is_mixed_root (buildOutput key_order sample_Unmarshal sample_ctx
      [root_rule SourceMethod, root_rule SourceBody])"
  using
    mixed_root_errors[of key_order sample_Unmarshal sample_ctx "[root_rule SourceMethod]"
      "\<lparr>output' = fmempty, rootValue = String ''POST'', hasRootValue = True\<rparr>"
      "root_rule SourcePath" "String ''/hook/3''" "[]"]
    mixed_root_errors[of key_order sample_Unmarshal sample_ctx "[keyed_rule SourceMethod ''m'']"
      "\<lparr>output' = fmupd ''m'' (String ''POST'') fmempty, rootValue = Nil, hasRootValue = False\<rparr>"
      "root_rule SourcePath" "String ''/hook/3''" "[]"]
    mixed_root_errors[of key_order sample_Unmarshal sample_ctx "[root_rule SourceMethod]"
      "\<lparr>output' = fmempty, rootValue = String ''POST'', hasRootValue = True\<rparr>"
      "keyed_rule SourcePath ''p''" "String ''/hook/3''" "[]"]
    mixed_root_errors[of key_order sample_Unmarshal sample_ctx "[root_rule SourceMethod]"
      "\<lparr>output' = fmempty, rootValue = String ''POST'', hasRootValue = True\<rparr>"
      "root_rule SourceBody" "Object (fmupd ''id'' (String ''1'') fmempty)" "[]"]
  by (simp add: eval_defs)

section \<open>The invariant of the assembler\<close>

text \<open>
  Claim C9.  In a run of \<open>buildOutput\<close> on the rules \<open>ms\<close>, the state after any number \<open>n\<close>
  of iterations satisfies: if the non-object root is set then \<open>output\<close> is empty.  Hence a
  document that \<open>buildOutput\<close> returns is either the non-object root alone, \<open>output\<close> being
  empty, or the object \<open>output\<close>.
\<close>

theorem scalar_root_excludes_keyed_fields:
  "(\<forall>n st. buildOutput_loop rng u c init_state (take n ms) = Inr st
       \<longrightarrow> (hasRootValue st \<longrightarrow> output' st = fmempty)) \<and>
   (\<forall>doc. buildOutput rng u c ms = Inr doc
       \<longrightarrow> (\<exists>st. buildOutput_loop rng u c init_state ms = Inr st \<and>
             (if hasRootValue st
              then doc = rootValue st \<and> asObject doc = None \<and> output' st = fmempty
              else doc = Object (output' st))))"
proof -
  have "root_inv st" if "buildOutput_loop rng u c init_state xs = Inr st" for st xs
    using root_inv_loop[OF root_inv_init that] .
  then show ?thesis
    by (auto simp: buildOutput_def root_inv_def split: sum.splits if_splits)
qed

theorem scalar_root_excludes_keyed_fields_witness:
  "(\<exists>st. buildOutput_loop key_order sample_Unmarshal sample_ctx init_state
            (take 1 [root_rule SourceMethod, keyed_rule SourcePath ''p'']) = Inr st \<and>
          hasRootValue st \<and> output' st = fmempty) \<and>
   (\<exists>st. buildOutput_loop key_order sample_Unmarshal sample_ctx init_state
            [root_rule SourceMethod] = Inr st \<and> String ''POST'' = rootValue st \<and>
          output' st = fmempty)"
  using
    scalar_root_excludes_keyed_fields[of key_order sample_Unmarshal sample_ctx
      "[root_rule SourceMethod, keyed_rule SourcePath ''p'']"]
    scalar_root_excludes_keyed_fields[of key_order sample_Unmarshal sample_ctx
      "[root_rule SourceMethod]"]
  by (simp add: eval_defs buildOutput_def)

section \<open>Keyed rules\<close>

lemma step_keyed:
  "\<not> Root m \<Longrightarrow> \<not> hasRootValue st \<Longrightarrow> extractValue u c (From m) = Inr v
   \<Longrightarrow> buildOutput_step rng u c st m = Inr (st\<lparr>output' := fmupd (To m) v (output' st)\<rparr>)"
  by (simp add: buildOutput_step_def)

lemma step_keyed_twice:
  "\<not> Root m \<Longrightarrow>
   (case buildOutput_step rng u c st m of
      Inl err \<Rightarrow> Inl err
    | Inr st' \<Rightarrow> buildOutput_step rng u c st' m) = buildOutput_step rng u c st m"
  by (auto simp: buildOutput_step_def split: sum.splits)

lemma extract_supported:
  "s \<in> set supported_sources \<Longrightarrow> \<exists>v. extractValue u c s = Inr v"
  by (auto simp: supported_sources_def extractValue_def parseBody_def Source_defs
           split: option.splits)

lemma keyed_loop:
  assumes "\<forall>m\<in>set ms. \<not> Root m \<and> From m \<in> set supported_sources"
    and "\<not> hasRootValue st"
  shows "\<exists>out. buildOutput_loop rng u c st ms = Inr (st\<lparr>output' := out\<rparr>) \<and>
           fmdom' out = fmdom' (output' st) \<union> To ` set ms \<and>
           (\<forall>k. k \<notin> To ` set ms \<longrightarrow> fmlookup out k = fmlookup (output' st) k) \<and>
           (distinct (map To ms) \<longrightarrow>
              (\<forall>m\<in>set ms. extractValue u c (From m) = Inr (the (fmlookup out (To m)))))"
  using assms
proof (induction ms arbitrary: st)
  case Nil
  then show ?case by (intro exI[of _ "output' st"]) simp
next
  case (Cons m ms)
  from Cons.prems obtain v where v: "extractValue u c (From m) = Inr v"
    using extract_supported[of "From m" u c] by auto
  let ?st = "st\<lparr>output' := fmupd (To m) v (output' st)\<rparr>"
  have s: "buildOutput_step rng u c st m = Inr ?st"
    using Cons.prems v by (simp add: step_keyed)
  have "\<forall>m\<in>set ms. \<not> Root m \<and> From m \<in> set supported_sources" "\<not> hasRootValue ?st"
    using Cons.prems by auto
  from Cons.IH[OF this] obtain out where out:
    "buildOutput_loop rng u c ?st ms = Inr (?st\<lparr>output' := out\<rparr>)"
    "fmdom' out = fmdom' (output' ?st) \<union> To ` set ms"
    "\<forall>k. k \<notin> To ` set ms \<longrightarrow> fmlookup out k = fmlookup (output' ?st) k"
    "distinct (map To ms) \<longrightarrow>
       (\<forall>m\<in>set ms. extractValue u c (From m) = Inr (the (fmlookup out (To m))))"
    by blast
  show ?case
  proof (intro exI[of _ out] conjI)
    show "buildOutput_loop rng u c st (m # ms) = Inr (st\<lparr>output' := out\<rparr>)"
      using s out(1) by simp
    show "fmdom' out = fmdom' (output' st) \<union> To ` set (m # ms)"
      using out(2) by auto
    show "\<forall>k. k \<notin> To ` set (m # ms) \<longrightarrow> fmlookup out k = fmlookup (output' st) k"
      using out(3) by auto
    show "distinct (map To (m # ms)) \<longrightarrow>
       (\<forall>m\<in>set (m # ms). extractValue u c (From m) = Inr (the (fmlookup out (To m))))"
      using out(3,4) v by auto
  qed
qed

text \<open>
  Claim C4.  Keyed assignment is last-write-wins.  In a state without non-object root a keyed
  rule whose source yields \<open>v2\<close> sets \<open>output[To]\<close> to \<open>v2\<close> without any check of what
  \<open>output\<close> holds; after an earlier keyed rule with the same \<open>To\<close> the value of the later
  rule is the one kept, and no error arises.  Writing a keyed rule twice in a row gives the
  result of writing it once.
\<close>

theorem keyed_last_write_wins:
  assumes "\<not> Root m1" and "\<not> Root m2" and "To m1 = To m2"
    and "buildOutput_loop rng u c init_state pre = Inr st" and "\<not> hasRootValue st"
    and "extractValue u c (From m1) = Inr v1" and "extractValue u c (From m2) = Inr v2"
  shows
    "buildOutput_loop rng u c init_state (pre @ [m2])
       = Inr (st\<lparr>output' := fmupd (To m2) v2 (output' st)\<rparr>) \<and>
     buildOutput_loop rng u c init_state (pre @ [m1, m2])
       = Inr (st\<lparr>output' := fmupd (To m2) v2 (output' st)\<rparr>) \<and>
     buildOutput rng u c (pre @ m1 # m1 # rest) = buildOutput rng u c (pre @ m1 # rest)"
proof -
  have a: "buildOutput_step rng u c st m2 = Inr (st\<lparr>output' := fmupd (To m2) v2 (output' st)\<rparr>)"
    using assms by (simp add: step_keyed)
  have b: "buildOutput_step rng u c st m1 = Inr (st\<lparr>output' := fmupd (To m1) v1 (output' st)\<rparr>)"
    using assms by (simp add: step_keyed)
  have c: "buildOutput_step rng u c (st\<lparr>output' := fmupd (To m1) v1 (output' st)\<rparr>) m2
             = Inr (st\<lparr>output' := fmupd (To m2) v2 (output' st)\<rparr>)"
    using assms by (simp add: step_keyed)
  have d: "buildOutput_loop rng u c st (m1 # m1 # rest) = buildOutput_loop rng u c st (m1 # rest)"
    using step_keyed_twice[OF assms(1), of rng u c st]
    by (auto split: sum.splits)
  show ?thesis
    using assms(4) a b c d
    by (simp add: buildOutput_def buildOutput_loop_append)
qed

theorem keyed_last_write_wins_witness:
  "buildOutput_loop key_order sample_Unmarshal sample_ctx init_state
     [keyed_rule SourceMethod ''k'', keyed_rule SourcePath ''k'']
     = Inr \<lparr>output' = fmupd ''k'' (String ''/hook/3'') fmempty, rootValue = Nil,
            hasRootValue = False\<rparr> \<and>
   buildOutput key_order sample_Unmarshal sample_ctx
     [keyed_rule SourceMethod ''k'', keyed_rule SourceMethod ''k'']
     = buildOutput key_order sample_Unmarshal sample_ctx [keyed_rule SourceMethod ''k'']"
  using keyed_last_write_wins[of "keyed_rule SourceMethod ''k''" "keyed_rule SourcePath ''k''"
      key_order sample_Unmarshal sample_ctx "[]" init_state
      "String ''POST''" "String ''/hook/3''" "[]"]
  by (simp add: eval_defs)

text \<open>
  Claim C3.  For a rule list without root rules, with pairwise distinct \<open>To\<close> and with
  sources among the seven supported ones, \<open>buildOutput\<close> succeeds with an object whose keys
  are the \<open>To\<close> of the rules and whose value at the \<open>To\<close> of a rule is the value extracted
  for that rule.  For every rule list on which the loop ends without error, the result is
  the non-object root if one was set and the object \<open>output\<close> otherwise.
\<close>

theorem keyed_rules_document:
  "((\<forall>m\<in>set ms. \<not> Root m \<and> From m \<in> set supported_sources) \<and> distinct (map To ms) \<longrightarrow>
      (\<exists>out. buildOutput rng u c ms = Inr (Object out) \<and>
         fmdom' out = To ` set ms \<and>
         (\<forall>m\<in>set ms. \<exists>v. extractValue u c (From m) = Inr v \<and> fmlookup out (To m) = Some v))) \<and>
   (\<forall>st. buildOutput_loop rng u c init_state ms = Inr st \<longrightarrow>
      buildOutput rng u c ms = Inr (if hasRootValue st then rootValue st else Object (output' st)))"
proof (intro conjI impI)
  assume a: "(\<forall>m\<in>set ms. \<not> Root m \<and> From m \<in> set supported_sources) \<and> distinct (map To ms)"
  have "\<not> hasRootValue init_state" by (simp add: init_state_def)
  from keyed_loop[OF conjunct1[OF a] this, of rng u c] obtain out where out:
    "buildOutput_loop rng u c init_state ms = Inr (init_state\<lparr>output' := out\<rparr>)"
    "fmdom' out = fmdom' (output' init_state) \<union> To ` set ms"
    "distinct (map To ms) \<longrightarrow>
       (\<forall>m\<in>set ms. extractValue u c (From m) = Inr (the (fmlookup out (To m))))"
    by blast
  show "\<exists>out. buildOutput rng u c ms = Inr (Object out) \<and>
         fmdom' out = To ` set ms \<and>
         (\<forall>m\<in>set ms. \<exists>v. extractValue u c (From m) = Inr v \<and> fmlookup out (To m) = Some v)"
  proof (intro exI[of _ out] conjI ballI)
    show "buildOutput rng u c ms = Inr (Object out)"
      using out(1) by (simp add: buildOutput_def init_state_def)
    show d: "fmdom' out = To ` set ms"
      using out(2) by (simp add: init_state_def)
    fix m assume m: "m \<in> set ms"
    then have "To m \<in> fmdom' out" using d by auto
    then obtain v where "fmlookup out (To m) = Some v" by (auto simp: fmlookup_dom'_iff)
    with out(3) a m show "\<exists>v. extractValue u c (From m) = Inr v \<and> fmlookup out (To m) = Some v"
      by auto
  qed
next
  show "\<forall>st. buildOutput_loop rng u c init_state ms = Inr st \<longrightarrow>
      buildOutput rng u c ms = Inr (if hasRootValue st then rootValue st else Object (output' st))"
    by (simp add: buildOutput_def)
qed

theorem keyed_rules_document_witness:
  "\<exists>out. buildOutput key_order sample_Unmarshal sample_ctx
            [keyed_rule SourceBody ''payload'', keyed_rule SourceMethod ''method'']
            = Inr (Object out) \<and>
         fmdom' out = {''payload'', ''method''} \<and>
         fmlookup out ''payload'' = Some (Object (fmupd ''id'' (String ''1'') fmempty)) \<and>
         fmlookup out ''method'' = Some (String ''POST'')"
  using keyed_rules_document[where
      ms = "[keyed_rule SourceBody ''payload'', keyed_rule SourceMethod ''method'']"
      and u = sample_Unmarshal and c = sample_ctx and rng = key_order]
  by (simp add: sample_defs supported_sources_def extractValue_def parseBody_def Source_defs)

section \<open>Root rules\<close>

lemmas merge_eval = mergeRootObject_ok[OF key_order_ok]

lemma step_object_root:
  assumes "Root m" and "extractValue u c (From m) = Inr (Object obj)"
  shows "buildOutput_step rng u c st m =
           (if hasRootValue st then Inl (ObjectRootAfterNonObjectRoot (From m))
            else case mergeRootObject rng (output' st) obj of
                   Inl err \<Rightarrow> Inl (MappingAsRootFailed (From m) err)
                 | Inr dst \<Rightarrow> Inr (st\<lparr>output' := dst\<rparr>))"
  using assms by (simp add: buildOutput_step_def)

text \<open>
  Claim C2, as stated, fails.  In the request \<^verbatim>\<open>POST /hook/3?id=2&id=4\<close> with body
  \<^verbatim>\<open>{"id":"1"}\<close> the root rules \<open>body\<close>, \<open>query\<close> both yield a map with the key \<open>id\<close>.
  The map of \<open>query\<close> is a \<open>map[string]string\<close>, the type assertion to
  \<open>map[string]any\<close> fails, and \<open>buildOutput\<close> reports a non-object root after object
  output instead of a root key collision.  The same holds for \<open>params\<close>.
\<close>

theorem object_root_merge_counterexample:
  "extractValue sample_Unmarshal sample_ctx SourceBody
     = Inr (Object (fmupd ''id'' (String ''1'') fmempty)) \<and>
   extractValue sample_Unmarshal sample_ctx SourceQuery
     = Inr (StringMap (fmupd ''id'' ''4'' fmempty)) \<and>
   buildOutput key_order sample_Unmarshal sample_ctx [root_rule SourceBody, root_rule SourceQuery]
     = Inl (NonObjectRootAfterObjectOutput SourceQuery) \<and>
   buildOutput key_order sample_Unmarshal sample_ctx [root_rule SourceBody, root_rule SourceParams]
     = Inl (NonObjectRootAfterObjectOutput SourceParams) \<and>
   \<not> fails_with is_root_collision
       (buildOutput key_order sample_Unmarshal sample_ctx
          [root_rule SourceBody, root_rule SourceQuery])"
  by (simp add: buildOutput_def eval_defs merge_eval Queries_def routeParams_def fails_with_def)

text \<open>
  Claim C2, amended.  Let the rules before the root rule \<open>m\<close> have been processed without
  error, giving \<open>st\<close>, and let the source of \<open>m\<close> yield a \<open>map[string]any\<close> \<open>obj\<close> (an
  object decoded from the body).  Processing \<open>m\<close> fails with a root-collision error exactly
  when a key of \<open>obj\<close> is already in \<open>output\<close>, and then \<open>buildOutput\<close> fails so whatever
  rules follow; when no key is shared and no non-object root is set, every entry of \<open>obj\<close>
  is added to \<open>output\<close>.
\<close>

theorem object_root_merge:
  assumes "range_ok rng" and "buildOutput_loop rng u c init_state pre = Inr st"
    and "Root m" and "extractValue u c (From m) = Inr (Object obj)"
  shows
    "(fails_with is_root_collision (buildOutput_loop rng u c init_state (pre @ [m]))
        \<longleftrightarrow> fmdom' obj \<inter> fmdom' (output' st) \<noteq> {}) \<and>
     (fmdom' obj \<inter> fmdom' (output' st) \<noteq> {}
        \<longrightarrow> fails_with is_root_collision (buildOutput rng u c (pre @ m # rest))) \<and>
     (\<not> hasRootValue st \<and> fmdom' obj \<inter> fmdom' (output' st) = {}
        \<longrightarrow> buildOutput_loop rng u c init_state (pre @ [m])
              = Inr (st\<lparr>output' := output' st ++\<^sub>f obj\<rparr>))"
proof -
  have inv: "root_inv st" using root_inv_loop[OF root_inv_init assms(2)] .
  note step = step_object_root[OF assms(3,4), of rng st]
  show ?thesis
  proof (cases "fmdom' obj \<inter> fmdom' (output' st) = {}")
    case True
    then have "mergeRootObject rng (output' st) obj = Inr (output' st ++\<^sub>f obj)"
      using assms(1) by (simp add: mergeRootObject_ok)
    with True assms(2) step show ?thesis
      by (simp add: buildOutput_loop_append fails_with_def)
  next
    case False
    then have nr: "\<not> hasRootValue st" using inv by (auto simp: root_inv_def)
    from mergeRootObject_collision[OF assms(1) False] obtain k where
      "mergeRootObject rng (output' st) obj = Inl (RootKeyCollision k)" by blast
    with False nr assms(2) step show ?thesis
      by (simp add: buildOutput_def buildOutput_loop_append fails_with_def)
  qed
qed

theorem object_root_merge_witness:
  "fails_with is_root_collision
     (buildOutput key_order sample_Unmarshal sample_ctx
        [keyed_rule SourceMethod ''id'', root_rule SourceBody]) \<and>
   buildOutput_loop key_order sample_Unmarshal sample_ctx init_state
     [keyed_rule SourceMethod ''method'', root_rule SourceBody]
     = Inr \<lparr>output' = fmupd ''id'' (String ''1'') (fmupd ''method'' (String ''POST'') fmempty),
            rootValue = Nil, hasRootValue = False\<rparr>"
  using
    object_root_merge[OF key_order_ok, of sample_Unmarshal sample_ctx
      "[keyed_rule SourceMethod ''id'']"
      "\<lparr>output' = fmupd ''id'' (String ''POST'') fmempty, rootValue = Nil, hasRootValue = False\<rparr>"
      "root_rule SourceBody" "fmupd ''id'' (String ''1'') fmempty" "[]"]
    object_root_merge[OF key_order_ok, of sample_Unmarshal sample_ctx
      "[keyed_rule SourceMethod ''method'']"
      "\<lparr>output' = fmupd ''method'' (String ''POST'') fmempty, rootValue = Nil,
        hasRootValue = False\<rparr>"
      "root_rule SourceBody" "fmupd ''id'' (String ''1'') fmempty" "[]"]
  by (simp add: eval_defs)

lemma mergeRootObject_error:
  "mergeRootObject_range dst kvs = Inl err \<Longrightarrow> \<exists>k. err = RootKeyCollision k"
  by (induction dst kvs rule: mergeRootObject_range.induct) (auto split: option.splits)

lemma fmadd_disjoint_commute:
  "fmdom' a \<inter> fmdom' b = {} \<Longrightarrow> m ++\<^sub>f b ++\<^sub>f a = m ++\<^sub>f a ++\<^sub>f b"
  by (rule fmap_ext) (auto simp: fmdom'_alt_def)

lemma mergeRootObject_Inr_iff:
  assumes "range_ok rng"
  shows "mergeRootObject rng dst obj = Inr d
           \<longleftrightarrow> fmdom' obj \<inter> fmdom' dst = {} \<and> d = dst ++\<^sub>f obj"
proof (cases "fmdom' obj \<inter> fmdom' dst = {}")
  case True
  then show ?thesis using mergeRootObject_ok[OF assms True] by auto
next
  case False
  from mergeRootObject_collision[OF assms False] show ?thesis using False by auto
qed

lemma two_root_rules_ok:
  assumes "range_ok rng" and "Root m1" and "Root m2"
    and "extractValue u c (From m1) = Inr (Object o1)"
    and "extractValue u c (From m2) = Inr (Object o2)"
    and "fmdom' o1 \<inter> fmdom' o2 = {}"
  shows "buildOutput rng u c [m1, m2] = Inr (Object (o1 ++\<^sub>f o2))"
proof -
  have "fmdom' o2 \<inter> fmdom' o1 = {}" using assms(6) by auto
  then show ?thesis
    using assms
    by (simp add: buildOutput_def step_object_root init_state_def mergeRootObject_ok)
qed

lemma two_root_rules_collision:
  assumes "range_ok rng" and "Root m1" and "Root m2"
    and "extractValue u c (From m1) = Inr (Object o1)"
    and "extractValue u c (From m2) = Inr (Object o2)"
    and "fmdom' o1 \<inter> fmdom' o2 \<noteq> {}"
  shows "fails_with is_root_collision (buildOutput rng u c [m1, m2])"
proof -
  have "fmdom' o2 \<inter> fmdom' o1 \<noteq> {}" using assms(6) by auto
  from mergeRootObject_collision[OF assms(1) this] obtain k where
    "mergeRootObject rng o1 o2 = Inl (RootKeyCollision k)" by blast
  then show ?thesis
    using assms
    by (simp add: buildOutput_def step_object_root init_state_def mergeRootObject_ok
        fails_with_def)
qed

text \<open>
  Claim C6, as stated, fails.  In the request \<^verbatim>\<open>POST /hook?q=x\<close> on the route
  \<^verbatim>\<open>/:name\<close> with body \<^verbatim>\<open>{"id":"1"}\<close> the root rules \<open>body\<close> and \<open>params\<close> yield maps
  without a common key, and \<open>buildOutput\<close> fails in both orders: the map of \<open>params\<close> is a
  \<open>map[string]string\<close> and is taken for a non-object root.
\<close>

theorem root_merge_commutes_counterexample:
  "extractValue sample_Unmarshal disjoint_ctx SourceBody
     = Inr (Object (fmupd ''id'' (String ''1'') fmempty)) \<and>
   extractValue sample_Unmarshal disjoint_ctx SourceParams
     = Inr (StringMap (fmupd ''name'' ''hook'' fmempty)) \<and>
   buildOutput key_order sample_Unmarshal disjoint_ctx [root_rule SourceBody, root_rule SourceParams]
     = Inl (NonObjectRootAfterObjectOutput SourceParams) \<and>
   buildOutput key_order sample_Unmarshal disjoint_ctx [root_rule SourceParams, root_rule SourceBody]
     = Inl (ObjectRootAfterNonObjectRoot SourceBody)"
  by (simp add: buildOutput_def eval_defs merge_eval routeParams_def disjoint_ctx_def)

text \<open>
  Claim C6, amended.  For every admissible order of \<open>range\<close>: when two \<open>map[string]any\<close>
  objects share no key, and neither shares a key with \<open>dst\<close>, merging them into \<open>dst\<close> one
  after the other succeeds in both orders with the same map; when they share a key the
  second merge fails with a root key collision in either order, and \<open>mergeRootObject\<close> has
  no other error.  For two root rules whose sources yield such objects, both orders of
  \<open>buildOutput\<close> give the same object when the key sets are disjoint and both fail with a
  root-collision error otherwise.
\<close>

theorem root_merge_commutes:
  assumes "range_ok rng"
  shows
    "(fmdom' o1 \<inter> fmdom' o2 = {} \<and> fmdom' o1 \<inter> fmdom' dst = {} \<and> fmdom' o2 \<inter> fmdom' dst = {}
        \<longrightarrow> mergeRootObject rng dst o1 = Inr (dst ++\<^sub>f o1) \<and>
            mergeRootObject rng (dst ++\<^sub>f o1) o2 = Inr (dst ++\<^sub>f o1 ++\<^sub>f o2) \<and>
            mergeRootObject rng dst o2 = Inr (dst ++\<^sub>f o2) \<and>
            mergeRootObject rng (dst ++\<^sub>f o2) o1 = Inr (dst ++\<^sub>f o1 ++\<^sub>f o2)) \<and>
     (fmdom' o1 \<inter> fmdom' o2 \<noteq> {}
        \<longrightarrow> (\<forall>d. mergeRootObject rng dst o1 = Inr d
                  \<longrightarrow> (\<exists>k. mergeRootObject rng d o2 = Inl (RootKeyCollision k))) \<and>
            (\<forall>d. mergeRootObject rng dst o2 = Inr d
                  \<longrightarrow> (\<exists>k. mergeRootObject rng d o1 = Inl (RootKeyCollision k))) \<and>
            (\<forall>err. mergeRootObject rng dst o1 = Inl err \<or> mergeRootObject rng dst o2 = Inl err
                  \<longrightarrow> (\<exists>k. err = RootKeyCollision k))) \<and>
     (Root m1 \<and> Root m2 \<and> extractValue u c (From m1) = Inr (Object o1) \<and>
      extractValue u c (From m2) = Inr (Object o2)
        \<longrightarrow> (if fmdom' o1 \<inter> fmdom' o2 = {}
             then buildOutput rng u c [m1, m2] = Inr (Object (o1 ++\<^sub>f o2)) \<and>
                  buildOutput rng u c [m2, m1] = Inr (Object (o1 ++\<^sub>f o2))
             else fails_with is_root_collision (buildOutput rng u c [m1, m2]) \<and>
                  fails_with is_root_collision (buildOutput rng u c [m2, m1])))"
proof -
  have A: "mergeRootObject rng dst o1 = Inr (dst ++\<^sub>f o1) \<and>
           mergeRootObject rng (dst ++\<^sub>f o1) o2 = Inr (dst ++\<^sub>f o1 ++\<^sub>f o2) \<and>
           mergeRootObject rng dst o2 = Inr (dst ++\<^sub>f o2) \<and>
           mergeRootObject rng (dst ++\<^sub>f o2) o1 = Inr (dst ++\<^sub>f o1 ++\<^sub>f o2)"
    if d: "fmdom' o1 \<inter> fmdom' o2 = {}" "fmdom' o1 \<inter> fmdom' dst = {}"
      "fmdom' o2 \<inter> fmdom' dst = {}"
  proof -
    have "fmdom' o2 \<inter> fmdom' (dst ++\<^sub>f o1) = {}" "fmdom' o1 \<inter> fmdom' (dst ++\<^sub>f o2) = {}"
      using d by auto
    then show ?thesis
      using d assms fmadd_disjoint_commute[OF d(1), of dst]
      by (simp add: mergeRootObject_ok)
  qed
  have B: "\<exists>k. mergeRootObject rng d b = Inl (RootKeyCollision k)"
    if "fmdom' a \<inter> fmdom' b \<noteq> {}" "mergeRootObject rng dst a = Inr d" for a b d
  proof -
    from that(2) have "d = dst ++\<^sub>f a" using assms by (simp add: mergeRootObject_Inr_iff)
    with that(1) have "fmdom' b \<inter> fmdom' d \<noteq> {}" by auto
    from mergeRootObject_collision[OF assms this] show ?thesis by blast
  qed
  have B': "\<exists>k. err = RootKeyCollision k" if "mergeRootObject rng dst a = Inl err" for a err
    using that by (auto simp: mergeRootObject_def dest: mergeRootObject_error)
  have C: "(if fmdom' o1 \<inter> fmdom' o2 = {}
             then buildOutput rng u c [m1, m2] = Inr (Object (o1 ++\<^sub>f o2)) \<and>
                  buildOutput rng u c [m2, m1] = Inr (Object (o1 ++\<^sub>f o2))
             else fails_with is_root_collision (buildOutput rng u c [m1, m2]) \<and>
                  fails_with is_root_collision (buildOutput rng u c [m2, m1]))"
    if r: "Root m1" "Root m2" "extractValue u c (From m1) = Inr (Object o1)"
      "extractValue u c (From m2) = Inr (Object o2)"
  proof (cases "fmdom' o1 \<inter> fmdom' o2 = {}")
    case True
    then have "fmdom' o2 \<inter> fmdom' o1 = {}" by auto
    with True show ?thesis
      using two_root_rules_ok[OF assms r True]
        two_root_rules_ok[OF assms r(2,1,4,3) \<open>fmdom' o2 \<inter> fmdom' o1 = {}\<close>]
        fmadd_disjoint_commute[OF True, of fmempty]
      by simp
  next
    case False
    then have "fmdom' o2 \<inter> fmdom' o1 \<noteq> {}" by auto
    with False show ?thesis
      using two_root_rules_collision[OF assms r False]
        two_root_rules_collision[OF assms r(2,1,4,3) \<open>fmdom' o2 \<inter> fmdom' o1 \<noteq> {}\<close>]
      by simp
  qed
  show ?thesis
    using A B[of o1 o2] B[of o2 o1] B' C
    by (intro conjI impI allI) (blast | simp)+
qed


theorem root_merge_commutes_witness:
  "mergeRootObject key_order (fmupd ''a'' (String ''1'') fmempty) (fmupd ''b'' (String ''2'') fmempty)
     = Inr (fmupd ''b'' (String ''2'') (fmupd ''a'' (String ''1'') fmempty)) \<and>
   mergeRootObject key_order (fmupd ''b'' (String ''2'') fmempty) (fmupd ''a'' (String ''1'') fmempty)
     = Inr (fmupd ''b'' (String ''2'') (fmupd ''a'' (String ''1'') fmempty)) \<and>
   (\<exists>k. mergeRootObject key_order (fmupd ''id'' (String ''1'') fmempty)
          (fmupd ''id'' (String ''1'') fmempty) = Inl (RootKeyCollision k)) \<and>
   fails_with is_root_collision
     (buildOutput key_order sample_Unmarshal sample_ctx [root_rule SourceBody, root_rule SourceBody]) \<and>
   buildOutput key_order sample_Unmarshal empty_body_ctx [root_rule SourceBody, root_rule SourceBody]
     = Inr (Object fmempty)"
  using
    root_merge_commutes[OF key_order_ok, where
      ?o1.0 = "fmupd ''a'' (String ''1'') fmempty" and ?o2.0 = "fmupd ''b'' (String ''2'') fmempty"
      and dst = fmempty and ?m1.0 = "root_rule SourceBody" and ?m2.0 = "root_rule SourceBody"
      and u = sample_Unmarshal and c = sample_ctx]
    root_merge_commutes[OF key_order_ok, where
      ?o1.0 = "fmupd ''id'' (String ''1'') fmempty" and ?o2.0 = "fmupd ''id'' (String ''1'') fmempty"
      and dst = fmempty and ?m1.0 = "root_rule SourceBody" and ?m2.0 = "root_rule SourceBody"
      and u = sample_Unmarshal and c = sample_ctx]
    root_merge_commutes[OF key_order_ok, where
      ?o1.0 = fmempty and ?o2.0 = fmempty
      and dst = fmempty and ?m1.0 = "root_rule SourceBody" and ?m2.0 = "root_rule SourceBody"
      and u = sample_Unmarshal and c = empty_body_ctx]
  by (simp add: sample_defs extractValue_def parseBody_def Source_defs empty_body_ctx_def
      merge_eval)

section \<open>The query source\<close>

lemma fold_fmupd_lookup:
  "fmlookup (fold (\<lambda>(key, val) m. fmupd key val m) args m0) k =
     (case map_of (rev args) k of None \<Rightarrow> fmlookup m0 k | Some v \<Rightarrow> Some v)"
  by (induction args arbitrary: m0) (auto simp: map_add_def split: option.splits)

text \<open>
  Claim C8, as stated, fails.  For the query \<^verbatim>\<open>id=2&id=4\<close> the extracted value maps
  \<open>id\<close> to \<open>4\<close> alone.
\<close>

theorem query_single_value_counterexample:
  "QueryArgs sample_ctx = [(''id'', ''2''), (''id'', ''4'')] \<and>
   extractValue sample_Unmarshal sample_ctx SourceQuery
     = Inr (StringMap (fmupd ''id'' ''4'' fmempty))"
  by (simp add: extractValue_def Source_defs Queries_def sample_ctx_def)

text \<open>
  Claim C8, amended.  Extracting \<open>query\<close> yields a \<open>map[string]string\<close> whose keys are the
  names of the query arguments and which maps each name to the last value received for it.
\<close>

theorem query_single_value:
  "extractValue u c SourceQuery = Inr (StringMap (Queries c)) \<and>
   fmdom' (Queries c) = fst ` set (QueryArgs c) \<and>
   (\<forall>k. fmlookup (Queries c) k = map_of (rev (QueryArgs c)) k)"
proof (intro conjI allI)
  show "extractValue u c SourceQuery = Inr (StringMap (Queries c))"
    by (simp add: extractValue_def Source_defs)
  show l: "fmlookup (Queries c) k = map_of (rev (QueryArgs c)) k" for k
    by (simp add: Queries_def fold_fmupd_lookup split: option.splits)
  have "k \<in> fmdom' (Queries c) \<longleftrightarrow> k \<in> fst ` set (QueryArgs c)" for k
    using map_of_eq_None_iff[of "rev (QueryArgs c)" k] by (auto simp: fmlookup_dom'_iff l)
  then show "fmdom' (Queries c) = fst ` set (QueryArgs c)" by blast
qed

section \<open>Empty objects as root\<close>

lemma step_root_empty:
  assumes "range_ok rng" and "Root m" and "extractValue u c (From m) = Inr (Object fmempty)"
    and "\<not> hasRootValue st"
  shows "buildOutput_step rng u c st m = Inr st"
  using assms by (simp add: step_object_root mergeRootObject_ok)

lemma loop_roots_empty:
  assumes "range_ok rng"
    and "\<forall>m\<in>set ms. Root m \<and> extractValue u c (From m) = Inr (Object fmempty)"
    and "\<not> hasRootValue st"
  shows "buildOutput_loop rng u c st ms = Inr st"
  using assms(2) by (induction ms) (simp_all add: step_root_empty[OF assms(1) _ _ assms(3)])

text \<open>
  Claim C10, as stated, fails.  With an empty body the root rule \<open>body\<close> yields the empty
  object, and after the root rule \<open>method\<close> it fails.  With no query the root rule
  \<open>query\<close> yields an empty \<open>map[string]string\<close>, and after a keyed rule it fails.
\<close>

theorem empty_object_root_counterexample:
  "extractValue sample_Unmarshal empty_body_ctx SourceBody = Inr (Object fmempty) \<and>
   buildOutput key_order sample_Unmarshal empty_body_ctx [root_rule SourceMethod, root_rule SourceBody]
     = Inl (ObjectRootAfterNonObjectRoot SourceBody) \<and>
   extractValue sample_Unmarshal empty_body_ctx SourceQuery = Inr (StringMap fmempty) \<and>
   buildOutput key_order sample_Unmarshal empty_body_ctx
     [keyed_rule SourceMethod ''m'', root_rule SourceQuery]
     = Inl (NonObjectRootAfterObjectOutput SourceQuery)"
  by (simp add: buildOutput_def eval_defs empty_body_ctx_def Queries_def)

text \<open>
  Claim C10, amended.  For every admissible order of \<open>range\<close>: a root rule whose source yields
  the empty \<open>map[string]any\<close> leaves the state unchanged when no non-object root is set.  A
  root rule with a non-object value that comes after root rules of this kind only succeeds,
  and the document is that value.
\<close>

theorem empty_object_root:
  assumes "range_ok rng"
  shows
    "(Root m \<and> extractValue u c (From m) = Inr (Object fmempty) \<and> \<not> hasRootValue st
        \<longrightarrow> buildOutput_step rng u c st m = Inr st) \<and>
     ((\<forall>m\<in>set pre. Root m \<and> extractValue u c (From m) = Inr (Object fmempty)) \<and>
      Root s \<and> extractValue u c (From s) = Inr v \<and> asObject v = None
        \<longrightarrow> buildOutput rng u c (pre @ [s]) = Inr v)"
proof (intro conjI impI)
  assume "Root m \<and> extractValue u c (From m) = Inr (Object fmempty) \<and> \<not> hasRootValue st"
  then show "buildOutput_step rng u c st m = Inr st"
    using assms by (simp add: step_root_empty)
next
  assume a: "(\<forall>m\<in>set pre. Root m \<and> extractValue u c (From m) = Inr (Object fmempty)) \<and>
      Root s \<and> extractValue u c (From s) = Inr v \<and> asObject v = None"
  have "buildOutput_loop rng u c init_state pre = Inr init_state"
    using a assms by (intro loop_roots_empty) (simp_all add: init_state_def)
  then show "buildOutput rng u c (pre @ [s]) = Inr v"
    using a
    by (simp add: buildOutput_def buildOutput_loop_append buildOutput_step_def init_state_def
        len_def)
qed

theorem empty_object_root_witness:
  "buildOutput key_order sample_Unmarshal empty_body_ctx [root_rule SourceBody, root_rule SourceMethod]
     = Inr (String ''POST'') \<and>
   buildOutput_step key_order sample_Unmarshal empty_body_ctx
     \<lparr>output' = fmupd ''k'' Nil fmempty, rootValue = Nil, hasRootValue = False\<rparr>
     (root_rule SourceBody)
     = Inr \<lparr>output' = fmupd ''k'' Nil fmempty, rootValue = Nil, hasRootValue = False\<rparr>"
  using
    empty_object_root[OF key_order_ok, where m = "root_rule SourceBody" and u = sample_Unmarshal
      and c = empty_body_ctx and pre = "[root_rule SourceBody]" and s = "root_rule SourceMethod"
      and v = "String ''POST''"
      and st = "\<lparr>output' = fmupd ''k'' Nil fmempty, rootValue = Nil, hasRootValue = False\<rparr>"]
  by (simp add: sample_defs extractValue_def parseBody_def Source_defs empty_body_ctx_def)

end
